theory Spec2Isabelle
  imports Complex_Main "HOL-Library.Product_Lexorder"
begin

section \<open>Data model\<close>

text \<open>
  JSON values as they reach the code after \<^verbatim>\<open>JSON.parse\<close>. Objects keep the order of
  their keys, so equality of two values of this type is equality of their
  \<^verbatim>\<open>JSON.stringify\<close> texts, which is how \<^verbatim>\<open>compareRecords\<close> compares nested data.
\<close>

datatype json =
    JNull
  | JBool bool
  | JNum rat
  | JStr string
  | JArr "json list"
  | JObj "(string \<times> json) list"

text \<open>
  A comment snapshot, the JSON stored in \<^verbatim>\<open>logs.data0\<close> and \<^verbatim>\<open>logs.data1\<close>
  (the TypeScript type \<^verbatim>\<open>IComment\<close> without its id). A field that is absent
  (\<^verbatim>\<open>undefined\<close>) or \<^verbatim>\<open>null\<close> is \<open>None\<close>; the empty object \<^verbatim>\<open>{}\<close> written for a
  creation is \<open>empty_snapshot\<close>.
\<close>

record snapshot =
  s_text_id :: "int option"
  s_title :: "string option"
  s_published :: "bool option"
  s_priority :: "rat option"
  s_tags :: "int list"
  s_issues :: "int list list"
  s_entry :: "(string \<times> json) list option"

definition empty_snapshot :: snapshot where
  "empty_snapshot =
     \<lparr>s_text_id = None, s_title = None, s_published = None, s_priority = None,
      s_tags = [], s_issues = [], s_entry = None\<rparr>"

section \<open>Snapshot differ (Logs.vue, compareRecords)\<close>

text \<open>The result: the single CREATED button, or one button per changed field (key, label).\<close>

datatype diff = CREATED | Changed "(string \<times> string) list"

text \<open>\<^verbatim>\<open>!data0?.title\<close>: true for a missing title and for the empty string.\<close>

definition title_falsy :: "string option \<Rightarrow> bool" where
  "title_falsy t = (case t of None \<Rightarrow> True | Some s \<Rightarrow> s = [])"

text \<open>\<^verbatim>\<open>new Set(xs).size\<close>: the number of distinct elements.\<close>

definition set_size :: "int list \<Rightarrow> nat" where
  "set_size xs = length (remdups xs)"

text \<open>\<^verbatim>\<open>data.entry?.[x]\<close>: \<open>None\<close> is \<^verbatim>\<open>undefined\<close>.\<close>

definition entry_field :: "(string \<times> json) list option \<Rightarrow> string \<Rightarrow> json option" where
  "entry_field e x = (case e of None \<Rightarrow> None | Some kvs \<Rightarrow> map_of kvs x)"

definition scheme_changes ::
  "(string \<times> string) list \<Rightarrow> snapshot \<Rightarrow> snapshot \<Rightarrow> (string \<times> string) list" where
  "scheme_changes scheme data0 data1 =
     concat (map (\<lambda>(x, title).
        if entry_field (s_entry data0) x \<noteq> entry_field (s_entry data1) x
        then [(x, title)] else []) scheme)"

text \<open>
  \<open>scheme\<close> is the reactive \<^verbatim>\<open>scheme\<close> object as the list of its keys with their
  titles, in \<^verbatim>\<open>Object.keys\<close> order.
\<close>

definition compareRecords ::
  "(string \<times> string) list \<Rightarrow> snapshot \<Rightarrow> snapshot \<Rightarrow> diff" where
  "compareRecords scheme data0 data1 =
     (if title_falsy (s_title data0) then CREATED
      else Changed
        ((if s_title data0 \<noteq> s_title data1 then [(''title'', ''Title'')] else []) @
         (if s_priority data0 \<noteq> s_priority data1 then [(''priority'', ''Priority'')] else []) @
         (if s_published data0 \<noteq> s_published data1 then [(''published'', ''Status'')] else []) @
         (if length (s_tags data0) \<noteq> set_size (s_tags data0 @ s_tags data1)
          then [(''tags'', ''Tags'')] else []) @
         (if s_issues data0 \<noteq> s_issues data1 then [(''issues'', ''Issues'')] else []) @
         scheme_changes scheme data0 data1))"

section \<open>The database behind the server module\<close>

text \<open>
  The tables of \<^verbatim>\<open>databaseScheme\<close>, with the columns the modelled operations read or
  write. Ids are the values of the SERIAL columns. A nullable column is an \<open>option\<close>.
\<close>

record user_row =
  u_id :: int
  u_privs :: int
  u_activated :: bool

record comment_row =
  c_id :: int
  c_text_id :: int
  c_title :: string
  c_published :: "bool option"
  c_priority :: "rat option"
  c_tags :: "int list"
  c_issues :: "int list list"
  c_entry :: "(string \<times> json) list option"

record log_row =
  l_id :: int
  l_created :: nat
  l_user_id :: int
  l_table_name :: string
  l_record_id :: int
  l_data0 :: snapshot
  l_data1 :: snapshot

record token_row =
  t_id :: int
  t_token :: string
  t_lang :: "string option"
  t_meta :: "string option"

record string_row =
  st_id :: int
  st_text_id :: int
  st_p :: int
  st_s :: int
  st_form :: "string option"
  st_repr :: "string option"
  st_token_id :: "int option"
  st_comments :: "int list"

record db =
  users :: "user_row list"
  comments :: "comment_row list"
  logs :: "log_row list"
  tokens :: "token_row list"
  strings :: "string_row list"

text \<open>The kinds of statement the modelled operations send.\<close>

datatype stmt =
    CONNECT | BEGIN | COMMIT | ROLLBACK
  | SELECT_COMMENT | INSERT_COMMENT | UPDATE_COMMENT | INSERT_LOG
  | INSERT_TOKEN | INSERT_STRING | UPDATE_STRINGS_TOKEN
  | ARRAY_REMOVE | ARRAY_APPEND
  | UPDATE_USER_ACTIVATED
  | SELECT_LOGS | COUNT_LOGS
  | STATS_COMMENTS | STATS_CHANGES | STATS_WORDS | STATS_TAGS | STATS_ETC

text \<open>
  The database as the server module reaches it, one call at a time: the committed tables;
  the open transaction of a client of the pool, kept as the writes made in it, which are
  applied to the committed tables when it is committed; the open transaction of a second
  client of the pool; the sequences behind the SERIAL ids (they are not rolled back); the
  clock behind \<^verbatim>\<open>CURRENT_TIMESTAMP\<close>; and the statements sent so far. Which statement
  the store rejects (a constraint, a value it cannot read, a lost connection) is given
  from outside, as a predicate \<open>fails\<close> on the position of the statement in \<open>trace\<close>.
  A statement sent through a client checked out with \<^verbatim>\<open>pool.connect()\<close> runs on the
  first client, and so do the single statements that the other operations send outside
  any transaction.
\<close>

record conn =
  committed :: db
  pending :: "(db \<Rightarrow> db) option"
  other :: "(db \<Rightarrow> db) option"
  seq_comments :: int
  seq_logs :: int
  seq_tokens :: int
  seq_strings :: int
  clock :: nat
  trace :: "stmt list"

definition query :: "(nat \<Rightarrow> bool) \<Rightarrow> stmt \<Rightarrow> conn \<Rightarrow> bool \<times> conn" where
  "query fails q c = (\<not> fails (length (trace c)), c\<lparr>trace := trace c @ [q]\<rparr>)"

definition visible :: "conn \<Rightarrow> db" where
  "visible c = (case pending c of None \<Rightarrow> committed c | Some w \<Rightarrow> w (committed c))"

definition modify :: "(db \<Rightarrow> db) \<Rightarrow> conn \<Rightarrow> conn" where
  "modify f c =
     (case pending c of
        None \<Rightarrow> c\<lparr>committed := f (committed c)\<rparr>
      | Some w \<Rightarrow> c\<lparr>pending := Some (\<lambda>d. f (w d))\<rparr>)"

definition begin_tx :: "conn \<Rightarrow> conn" where
  "begin_tx c = (case pending c of None \<Rightarrow> c\<lparr>pending := Some (\<lambda>d. d)\<rparr> | Some w \<Rightarrow> c)"

definition commit_tx :: "conn \<Rightarrow> conn" where
  "commit_tx c =
     (case pending c of
        None \<Rightarrow> c
      | Some w \<Rightarrow> c\<lparr>committed := w (committed c), pending := None\<rparr>)"

definition rollback_tx :: "conn \<Rightarrow> conn" where
  "rollback_tx c = c\<lparr>pending := None\<rparr>"

text \<open>
  \<^verbatim>\<open>pool.query\<close> hands each statement to a client of the pool. Which of the two
  clients serves the statement at a position of the trace is given from outside as well,
  as a predicate \<open>serves\<close>: false for the first client, true for the second. A statement
  served by the second client sees and changes the second client's transaction.
\<close>

definition swap_clients :: "conn \<Rightarrow> conn" where
  "swap_clients c = c\<lparr>pending := other c, other := pending c\<rparr>"

definition by_client :: "bool \<Rightarrow> (conn \<Rightarrow> conn) \<Rightarrow> conn \<Rightarrow> conn" where
  "by_client second f c = (if second then swap_clients (f (swap_clients c)) else f c)"

definition visible_by :: "bool \<Rightarrow> conn \<Rightarrow> db" where
  "visible_by second c = (if second then visible (swap_clients c) else visible c)"

text \<open>\<^verbatim>\<open>Number(x)\<close> of a value that is a number or missing.\<close>

datatype jsnum = NaN | Num int

definition Number :: "int option \<Rightarrow> jsnum" where
  "Number x = (case x of None \<Rightarrow> NaN | Some k \<Rightarrow> Num k)"

record user =
  cu_id :: int
  cu_privs :: int

section \<open>Comment store (setComment)\<close>

text \<open>
  The \<^verbatim>\<open>params\<close> object of \<^verbatim>\<open>setComment\<close>. \<open>None\<close> is a missing field; \<^verbatim>\<open>params.id\<close>
  is falsy when it is missing or 0.
\<close>

record comment_params =
  p_id :: "int option"
  p_text_id :: "int option"
  p_title :: "string option"
  p_published :: "bool option"
  p_priority :: "rat option"
  p_tags :: "int list"
  p_issues :: "int list list"
  p_entry :: "(string \<times> json) list option"

text \<open>
  What \<^verbatim>\<open>setComment\<close> returns: the rejected promise of an uncaught TypeError,
  \<^verbatim>\<open>{ error }\<close>, the untouched \<^verbatim>\<open>{}\<close>, or \<^verbatim>\<open>{ id, change }\<close>.
\<close>

datatype comment_result = Thrown | ErrorResult | EmptyObject | Saved int int

text \<open>\<^verbatim>\<open>cleanCommentObject\<close>, on the params and on a row of the table: the object without its id.\<close>

definition cleanCommentObject :: "comment_params \<Rightarrow> snapshot" where
  "cleanCommentObject params =
     \<lparr>s_text_id = p_text_id params, s_title = p_title params,
      s_published = p_published params, s_priority = p_priority params,
      s_tags = p_tags params, s_issues = p_issues params, s_entry = p_entry params\<rparr>"

definition cleanCommentRow :: "comment_row \<Rightarrow> snapshot" where
  "cleanCommentRow r =
     \<lparr>s_text_id = Some (c_text_id r), s_title = Some (c_title r),
      s_published = c_published r, s_priority = c_priority r,
      s_tags = c_tags r, s_issues = c_issues r, s_entry = c_entry r\<rparr>"

definition has_id :: "comment_params \<Rightarrow> bool" where
  "has_id params = (case p_id params of None \<Rightarrow> False | Some k \<Rightarrow> k \<noteq> 0)"

text \<open>
  What the built-ins outside the repository make of the values of one call:
  \<^verbatim>\<open>params.title.trim()\<close>, the number the REAL column \<^verbatim>\<open>priority\<close> gives back for
  \<^verbatim>\<open>params.priority\<close>, and the array the column \<^verbatim>\<open>issues\<close> gives back for the
  literal built from \<^verbatim>\<open>params.issues\<close>. They are taken as given with the call.
\<close>

record held =
  h_title :: string
  h_priority :: rat
  h_issues :: "int list list"

text \<open>
  The read of the previous row, before the transaction. \<open>None\<close>: the query failed, or
  no row came back and \<^verbatim>\<open>cleanCommentObject(undefined)\<close> threw; both end in the outer
  \<^verbatim>\<open>catch\<close>, which logs and lets \<^verbatim>\<open>{}\<close> be returned.
\<close>

definition select_previous ::
  "(nat \<Rightarrow> bool) \<Rightarrow> (nat \<Rightarrow> bool) \<Rightarrow> comment_params \<Rightarrow> conn \<Rightarrow> snapshot option \<times> conn" where
  "select_previous serves fails params c =
     (if has_id params then
        (let (ok, c1) = query fails SELECT_COMMENT c in
         if \<not> ok then (None, c1)
         else (case find (\<lambda>r. Some (c_id r) = p_id params)
                      (comments (visible_by (serves (length (trace c))) c1)) of
                 None \<Rightarrow> (None, c1)
               | Some r \<Rightarrow> (Some (cleanCommentRow r), c1)))
      else (Some empty_snapshot, c))"

text \<open>
  The row the table holds after the write: an absent priority is NULL, and the literal
  of an empty list of issues is the empty array.
\<close>

definition row_of_params :: "int \<Rightarrow> int \<Rightarrow> held \<Rightarrow> comment_params \<Rightarrow> comment_row" where
  "row_of_params i textId h params =
     \<lparr>c_id = i, c_text_id = textId, c_title = h_title h,
      c_published = p_published params,
      c_priority = (case p_priority params of None \<Rightarrow> None | Some x \<Rightarrow> Some (h_priority h)),
      c_tags = p_tags params,
      c_issues = (if p_issues params = [] then [] else h_issues h),
      c_entry = p_entry params\<rparr>"

text \<open>
  The INSERT or UPDATE of the comment, RETURNING id. \<open>None\<close>: the statement failed (the
  store refused it, or the text id is NaN, which is no integer), or the UPDATE returned
  no row and \<^verbatim>\<open>data.id\<close> threw.
\<close>

definition write_comment ::
  "(nat \<Rightarrow> bool) \<Rightarrow> (nat \<Rightarrow> bool) \<Rightarrow> held \<Rightarrow> comment_params \<Rightarrow> conn \<Rightarrow> int option \<times> conn" where
  "write_comment serves fails h params c =
     (let (ok, c1) = query fails (if has_id params then UPDATE_COMMENT else INSERT_COMMENT) c;
          second = serves (length (trace c)) in
      case Number (p_text_id params) of
        NaN \<Rightarrow> (None, c1)
      | Num textId \<Rightarrow>
          if \<not> ok then (None, c1)
          else if has_id params then
            (case find (\<lambda>r. Some (c_id r) = p_id params) (comments (visible_by second c1)) of
               None \<Rightarrow> (None, c1)
             | Some r \<Rightarrow>
                 (Some (c_id r),
                  by_client second (modify (\<lambda>d. d\<lparr>comments :=
                     map (\<lambda>r. if Some (c_id r) = p_id params
                               then row_of_params (c_id r) textId h params else r)
                       (comments d)\<rparr>)) c1))
          else
            (let i = seq_comments c1 + 1 in
             (Some i,
              by_client second
                (modify (\<lambda>d. d\<lparr>comments := comments d @ [row_of_params i textId h params]\<rparr>))
                (c1\<lparr>seq_comments := i\<rparr>))))"

definition insert_log ::
  "(nat \<Rightarrow> bool) \<Rightarrow> (nat \<Rightarrow> bool) \<Rightarrow> user \<Rightarrow> int \<Rightarrow> snapshot \<Rightarrow> snapshot \<Rightarrow> conn
     \<Rightarrow> int option \<times> conn" where
  "insert_log serves fails usr resultId previousCommentObject newCommentObject c =
     (let (ok, c1) = query fails INSERT_LOG c in
      if \<not> ok then (None, c1)
      else
        (let i = seq_logs c1 + 1 in
         (Some i,
          by_client (serves (length (trace c)))
            (modify (\<lambda>d. d\<lparr>logs := logs d @
               [\<lparr>l_id = i, l_created = clock c1, l_user_id = cu_id usr,
                 l_table_name = ''comments'', l_record_id = resultId,
                 l_data0 = previousCommentObject, l_data1 = newCommentObject\<rparr>]\<rparr>))
            (c1\<lparr>seq_logs := i\<rparr>))))"

text \<open>
  The inner \<^verbatim>\<open>catch\<close>: ROLLBACK, then \<^verbatim>\<open>return { error }\<close>; a ROLLBACK that fails
  is caught one level up, which returns \<^verbatim>\<open>{ error }\<close> as well.
\<close>

definition rollback_error ::
  "(nat \<Rightarrow> bool) \<Rightarrow> (nat \<Rightarrow> bool) \<Rightarrow> conn \<Rightarrow> comment_result \<times> conn" where
  "rollback_error serves fails c =
     (let (ok, c1) = query fails ROLLBACK c in
      (ErrorResult, if ok then by_client (serves (length (trace c))) rollback_tx c1 else c1))"

text \<open>
  Every statement of \<open>setComment\<close> goes through \<^verbatim>\<open>pool.query\<close>: BEGIN, the write, the
  insertion into \<open>logs\<close>, COMMIT and ROLLBACK each run on the client that serves them.
\<close>

definition setComment ::
  "(nat \<Rightarrow> bool) \<Rightarrow> (nat \<Rightarrow> bool) \<Rightarrow> user \<Rightarrow> comment_params \<Rightarrow> held \<Rightarrow> conn
     \<Rightarrow> comment_result \<times> conn" where
  "setComment serves fails usr params h c =
     (case p_title params of
        None \<Rightarrow> (Thrown, c)
      | Some title \<Rightarrow>
          (case select_previous serves fails params c of
             (None, c1) \<Rightarrow> (EmptyObject, c1)
           | (Some previousCommentObject, c1) \<Rightarrow>
               (let newCommentObject = cleanCommentObject params;
                    (ok, c2) = query fails BEGIN c1 in
                if \<not> ok then (ErrorResult, c2)
                else
                  (case write_comment serves fails h params
                          (by_client (serves (length (trace c1))) begin_tx c2) of
                     (None, c3) \<Rightarrow> rollback_error serves fails c3
                   | (Some resultId, c3) \<Rightarrow>
                       (case insert_log serves fails usr resultId previousCommentObject
                               newCommentObject c3 of
                          (None, c4) \<Rightarrow> rollback_error serves fails c4
                        | (Some change, c4) \<Rightarrow>
                            (let (ok5, c5) = query fails COMMIT c4 in
                             if \<not> ok5 then rollback_error serves fails c5
                             else (Saved resultId change,
                                   by_client (serves (length (trace c4))) commit_tx c5)))))))"

section \<open>Binding comments to strings (setCommentForString)\<close>









section \<open>Activation of users (changeActivationStatus)\<close>

text \<open>
  The result is the id of the returned row, if any: \<open>None\<close> stands for \<^verbatim>\<open>{}\<close> (guard
  false, or the query failed) and for the \<^verbatim>\<open>undefined\<close> of an UPDATE that matched no row.
\<close>

definition changeActivationStatus ::
  "(nat \<Rightarrow> bool) \<Rightarrow> user \<Rightarrow> int \<Rightarrow> bool \<Rightarrow> conn \<Rightarrow> int option \<times> conn" where
  "changeActivationStatus fails currentUser userId status c =
     (if userId \<noteq> 0 \<and> cu_privs currentUser = 1 then
        (let (ok, c1) = query fails UPDATE_USER_ACTIVATED c in
         if \<not> ok then (None, c1)
         else
           (map_option u_id (find (\<lambda>u. u_id u = userId) (users (visible c1))),
            modify (\<lambda>d. d\<lparr>users := map (\<lambda>u. if u_id u = userId
                                               then u\<lparr>u_activated := status\<rparr> else u)
                                         (users d)\<rparr>) c1))
      else (None, c))"

section \<open>Corpus ingestion (insertBatchIntoStrings)\<close>

text \<open>One record of the batch: \<^verbatim>\<open>{ p, s, form, repr, meta }\<close>.\<close>

record item =
  i_p :: int
  i_s :: int
  i_form :: "string option"
  i_repr :: "string option"
  i_meta :: "string option"

text \<open>
  What the caller gets: the elapsed seconds (their value is not modelled),
  \<^verbatim>\<open>undefined\<close>, or a rejected promise.
\<close>

datatype ingest_result = Secs | Undefined | Rejected

text \<open>
  \<^verbatim>\<open>INSERT INTO tokens ... ON CONFLICT (token, lang) DO NOTHING\<close>. A NULL language never
  conflicts, as in SQL.
\<close>

definition token_conflict :: "string \<Rightarrow> string option \<Rightarrow> db \<Rightarrow> bool" where
  "token_conflict tok lang d =
     (lang \<noteq> None \<and> list_ex (\<lambda>r. t_token r = tok \<and> t_lang r = lang) (tokens d))"

definition insert_token :: "int \<Rightarrow> string \<Rightarrow> string option \<Rightarrow> string option \<Rightarrow> db \<Rightarrow> db" where
  "insert_token i tok lang meta d =
     (if token_conflict tok lang d then d
      else d\<lparr>tokens := tokens d @ [\<lparr>t_id = i, t_token = tok, t_lang = lang, t_meta = meta\<rparr>]\<rparr>)"

definition insert_string :: "int \<Rightarrow> int \<Rightarrow> item \<Rightarrow> db \<Rightarrow> db" where
  "insert_string i textId it d =
     d\<lparr>strings := strings d @
        [\<lparr>st_id = i, st_text_id = textId, st_p = i_p it, st_s = i_s it, st_form = i_form it,
          st_repr = i_repr it, st_token_id = None, st_comments = []\<rparr>]\<rparr>"

text \<open>
  \<^verbatim>\<open>UPDATE strings SET token_id = tokens.id FROM tokens WHERE tokens.lang = $1 AND
  tokens.token = strings.repr\<close>.
\<close>

definition link_tokens :: "string option \<Rightarrow> db \<Rightarrow> db" where
  "link_tokens lang d =
     d\<lparr>strings := map (\<lambda>r.
          case find (\<lambda>t. lang \<noteq> None \<and> t_lang t = lang \<and> Some (t_token t) = st_repr r) (tokens d) of
            None \<Rightarrow> r
          | Some t \<Rightarrow> r\<lparr>st_token_id := Some (t_id t)\<rparr>) (strings d)\<rparr>"

text \<open>
  The \<^verbatim>\<open>for\<close> loop over the batch: two INSERTs per item, stopping at the first that
  throws. An item without \<^verbatim>\<open>repr\<close> is refused by the NOT NULL column \<^verbatim>\<open>tokens.token\<close>.
  The flag says whether the loop ran to its end.
\<close>

fun insert_items ::
  "(nat \<Rightarrow> bool) \<Rightarrow> int \<Rightarrow> string option \<Rightarrow> item list \<Rightarrow> conn \<Rightarrow> bool \<times> conn" where
  "insert_items fails textId langId [] c = (True, c)"
| "insert_items fails textId langId (it # rest) c =
     (let (ok1, c1) = query fails INSERT_TOKEN c in
      case i_repr it of
        None \<Rightarrow> (False, c1)
      | Some token \<Rightarrow>
          if \<not> ok1 then (False, c1)
          else
            (let c2 = modify (insert_token (seq_tokens c1 + 1) token langId (i_meta it))
                        (c1\<lparr>seq_tokens := seq_tokens c1 + 1\<rparr>);
                 (ok2, c3) = query fails INSERT_STRING c2 in
             if \<not> ok2 then (False, c3)
             else insert_items fails textId langId rest
                    (modify (insert_string (seq_strings c3 + 1) textId it)
                       (c3\<lparr>seq_strings := seq_strings c3 + 1\<rparr>))))"

text \<open>The body of the \<^verbatim>\<open>try\<close>: BEGIN, the loop, the UPDATE that links the tokens, COMMIT.\<close>

definition ingest_body ::
  "(nat \<Rightarrow> bool) \<Rightarrow> int \<Rightarrow> item list \<Rightarrow> string option \<Rightarrow> conn \<Rightarrow> bool \<times> conn" where
  "ingest_body fails textId batch langId c =
     (let (ok0, c0) = query fails BEGIN c in
      if \<not> ok0 then (False, c0)
      else
        (case insert_items fails textId langId batch (begin_tx c0) of
           (False, c1) \<Rightarrow> (False, c1)
         | (True, c1) \<Rightarrow>
             (let (ok2, c2) = query fails UPDATE_STRINGS_TOKEN c1 in
              if \<not> ok2 then (False, c2)
              else
                (let (ok3, c3) = query fails COMMIT (modify (link_tokens langId) c2) in
                 if \<not> ok3 then (False, c3) else (True, commit_tx c3)))))"

text \<open>
  \<^verbatim>\<open>pool.connect()\<close> is outside the \<^verbatim>\<open>try\<close>; a ROLLBACK that throws inside the
  \<^verbatim>\<open>catch\<close> leaves the function as a rejection, after \<^verbatim>\<open>client.release()\<close>.
\<close>

definition insertBatchIntoStrings ::
  "(nat \<Rightarrow> bool) \<Rightarrow> int \<Rightarrow> item list \<Rightarrow> string option \<Rightarrow> conn \<Rightarrow> ingest_result \<times> conn" where
  "insertBatchIntoStrings fails textId batch langId c =
     (let (okc, c0) = query fails CONNECT c in
      if \<not> okc then (Rejected, c0)
      else
        (case ingest_body fails textId batch langId c0 of
           (True, c1) \<Rightarrow> (Secs, c1)
         | (False, c1) \<Rightarrow>
             (let (okr, c2) = query fails ROLLBACK c1 in
              if \<not> okr then (Rejected, c2) else (Undefined, rollback_tx c2))))"

text \<open>
  The metadata of the rows of \<open>tokens\<close> that hold a given token in a given language, in
  table order; and what the first writer leaves there: the rows from before, or else the
  metadata of the first record of the batch that carries the token.
\<close>

definition token_metas :: "string \<Rightarrow> string \<Rightarrow> db \<Rightarrow> string option list" where
  "token_metas tok lang d =
     map t_meta (filter (\<lambda>r. t_token r = tok \<and> t_lang r = Some lang) (tokens d))"

definition first_seen :: "string \<Rightarrow> item list \<Rightarrow> string option list \<Rightarrow> string option list" where
  "first_seen tok batch before =
     (case before of
        [] \<Rightarrow> (case find (\<lambda>it. i_repr it = Some tok) batch of None \<Rightarrow> [] | Some it \<Rightarrow> [i_meta it])
      | m # ms \<Rightarrow> m # ms)"

section \<open>Revision log retrieval (getLogs)\<close>

record log_params =
  lp_offset :: nat
  lp_limit :: nat
  lp_id :: jsnum
  lp_comment :: jsnum

record log_page =
  lr_data :: "(log_row \<times> bool) list"
  lr_count :: nat

text \<open>\<^verbatim>\<open>Number(params.id) || 1\<close> and the truthiness of \<^verbatim>\<open>Number(params.comment)\<close>.\<close>

definition or_one :: "jsnum \<Rightarrow> int" where
  "or_one n = (case n of NaN \<Rightarrow> 1 | Num k \<Rightarrow> if k = 0 then 1 else k)"

definition truthy_num :: "jsnum \<Rightarrow> int option" where
  "truthy_num n = (case n of NaN \<Rightarrow> None | Num k \<Rightarrow> if k = 0 then None else Some k)"

text \<open>
  The WHERE clause of both queries: the optional \<^verbatim>\<open>logs.record_id = commentId AND\<close>, then
  the text id found in either snapshot.
\<close>

definition log_matches :: "int option \<Rightarrow> int \<Rightarrow> log_row \<Rightarrow> bool" where
  "log_matches commentId textId l =
     ((case commentId of None \<Rightarrow> True | Some k \<Rightarrow> l_record_id l = k)
      \<and> (s_text_id (l_data0 l) = Some textId \<or> s_text_id (l_data1 l) = Some textId))"

text \<open>
  \<^verbatim>\<open>logs LEFT JOIN comments ON logs.record_id = comments.id\<close>, with the column
  \<^verbatim>\<open>present\<close>: one row per matching comment, or one row with \<^verbatim>\<open>present\<close> false.
\<close>

definition left_join_comments :: "log_row list \<Rightarrow> comment_row list \<Rightarrow> (log_row \<times> bool) list" where
  "left_join_comments ls cs =
     concat (map (\<lambda>l. case filter (\<lambda>r. c_id r = l_record_id l) cs of
                         [] \<Rightarrow> [(l, False)]
                       | ms \<Rightarrow> map (\<lambda>r. (l, True)) ms) ls)"

text \<open>\<^verbatim>\<open>ORDER BY logs.created DESC, logs.id DESC\<close>.\<close>

definition log_key :: "log_row \<times> bool \<Rightarrow> nat \<times> int" where
  "log_key x = (l_created (fst x), l_id (fst x))"

definition order_desc :: "(log_row \<times> bool) list \<Rightarrow> (log_row \<times> bool) list" where
  "order_desc rows = rev (sort_key log_key rows)"

definition select_logs :: "log_params \<Rightarrow> db \<Rightarrow> (log_row \<times> bool) list" where
  "select_logs params d =
     take (if lp_limit params = 0 then 50 else lp_limit params)
       (drop (lp_offset params)
          (order_desc
             (filter (\<lambda>x. log_matches (truthy_num (lp_comment params)) (or_one (lp_id params)) (fst x))
                (left_join_comments (logs d) (comments d)))))"

definition count_logs :: "log_params \<Rightarrow> db \<Rightarrow> nat" where
  "count_logs params d =
     length (filter (log_matches (truthy_num (lp_comment params)) (or_one (lp_id params))) (logs d))"

text \<open>Neither query is guarded: a failure leaves the function as a rejection, \<open>None\<close>.\<close>

definition getLogs :: "(nat \<Rightarrow> bool) \<Rightarrow> log_params \<Rightarrow> conn \<Rightarrow> log_page option \<times> conn" where
  "getLogs fails params c =
     (let (ok1, c1) = query fails SELECT_LOGS c in
      if \<not> ok1 then (None, c1)
      else
        (let res = select_logs params (visible c1);
             (ok2, c2) = query fails COUNT_LOGS c1 in
         if \<not> ok2 then (None, c2)
         else (Some \<lparr>lr_data = res, lr_count = count_logs params (visible c2)\<rparr>, c2)))"

text \<open>The order of the result: later creation time first, and among equal times the larger id first.\<close>

definition newer :: "log_row \<Rightarrow> log_row \<Rightarrow> bool" where
  "newer a b =
     (l_created b < l_created a \<or> (l_created a = l_created b \<and> l_id b < l_id a))"

section \<open>Statistics (getStats)\<close>

text \<open>The row of the first query; the other fields of the result are not modelled.\<close>

record completion =
  total :: nat
  ready :: nat
  draft :: nat

text \<open>
  \<^verbatim>\<open>count(*)\<close>, \<^verbatim>\<open>count(*) FILTER (where published = True)\<close> and
  \<^verbatim>\<open>count(*) FILTER (where published != True)\<close> over the comments of the text. A
  comparison with NULL is not true, so a row whose \<^verbatim>\<open>published\<close> is NULL passes neither
  filter.
\<close>

definition completion_counts :: "int \<Rightarrow> db \<Rightarrow> completion" where
  "completion_counts textId d =
     (let rows = filter (\<lambda>r. c_text_id r = textId) (comments d) in
      \<lparr>total = length rows,
       ready = length (filter (\<lambda>r. c_published r = Some True) rows),
       draft = length (filter (\<lambda>r. c_published r \<noteq> None \<and> c_published r \<noteq> Some True) rows)\<rparr>)"

text \<open>
  The last query divides an interval by \<^verbatim>\<open>ready / total\<close>; with no published comment
  that is a division by zero for every log row of the text, and the query fails.
\<close>

definition etc_divides_by_zero :: "int \<Rightarrow> completion \<Rightarrow> db \<Rightarrow> bool" where
  "etc_divides_by_zero textId cc d =
     (ready cc = 0 \<and> total cc \<noteq> 0 \<and> list_ex (log_matches None textId) (logs d))"

text \<open>Five queries in one \<^verbatim>\<open>try\<close>; any failure is logged and \<^verbatim>\<open>{}\<close> returned (\<open>None\<close>).\<close>

definition getStats :: "(nat \<Rightarrow> bool) \<Rightarrow> jsnum \<Rightarrow> conn \<Rightarrow> completion option \<times> conn" where
  "getStats fails ident c =
     (case truthy_num ident of
        None \<Rightarrow> (None, c)
      | Some textId \<Rightarrow>
          (let (ok1, c1) = query fails STATS_COMMENTS c in
           if \<not> ok1 then (None, c1)
           else
             (let cc = completion_counts textId (visible c1);
                  (ok2, c2) = query fails STATS_CHANGES c1 in
              if \<not> ok2 then (None, c2)
              else
                (let (ok3, c3) = query fails STATS_WORDS c2 in
                 if \<not> ok3 then (None, c3)
                 else
                   (let (ok4, c4) = query fails STATS_TAGS c3 in
                    if \<not> ok4 then (None, c4)
                    else
                      (let (ok5, c5) = query fails STATS_ETC c4 in
                       if \<not> ok5 then (None, c5)
                       else if etc_divides_by_zero textId cc (visible c5) then (None, c5)
                       else (Some cc, c5)))))))"

section \<open>A fresh session, for the examples\<close>

definition empty_db :: db where
  "empty_db = \<lparr>users = [], comments = [], logs = [], tokens = [], strings = []\<rparr>"

definition fresh :: conn where
  "fresh = \<lparr>committed = empty_db, pending = None, other = None, seq_comments = 0,
            seq_logs = 0, seq_tokens = 0, seq_strings = 0, clock = 0, trace = []\<rparr>"

definition no_failure :: "nat \<Rightarrow> bool" where
  "no_failure k = False"

definition cats :: "item list" where
  "cats =
     [\<lparr>i_p = 1, i_s = 1, i_form = Some ''Cat'', i_repr = Some ''cat'', i_meta = Some ''word''\<rparr>,
      \<lparr>i_p = 1, i_s = 2, i_form = Some ''cat'', i_repr = Some ''cat'', i_meta = Some ''noun''\<rparr>]"

definition admin :: user where
  "admin = \<lparr>cu_id = 1, cu_privs = 1\<rparr>"

text \<open>A session whose only user is that administrator, activated.\<close>

definition one_admin :: conn where
  "one_admin = fresh\<lparr>committed := empty_db\<lparr>users := [\<lparr>u_id = 1, u_privs = 1, u_activated = True\<rparr>]\<rparr>\<rparr>"


text \<open>
  Four log entries, three of them of text 1 and two of those created at the same time;
  and the request for the second page of size 2 of text 1.
\<close>

definition log_entry :: "int \<Rightarrow> nat \<Rightarrow> int \<Rightarrow> log_row" where
  "log_entry i t txt =
     \<lparr>l_id = i, l_created = t, l_user_id = 7, l_table_name = ''comments'', l_record_id = i,
      l_data0 = empty_snapshot, l_data1 = empty_snapshot\<lparr>s_text_id := Some txt\<rparr>\<rparr>"

definition four_logs :: conn where
  "four_logs =
     fresh\<lparr>committed := empty_db\<lparr>logs :=
        [log_entry 1 10 1, log_entry 2 10 1, log_entry 3 20 2, log_entry 4 5 1]\<rparr>\<rparr>"

definition second_page :: log_params where
  "second_page = \<lparr>lp_offset = 2, lp_limit = 2, lp_id = Num 1, lp_comment = NaN\<rparr>"

definition editor :: user where
  "editor = \<lparr>cu_id = 7, cu_privs = 5\<rparr>"

definition intro_params :: comment_params where
  "intro_params =
     \<lparr>p_id = None, p_text_id = Some 1, p_title = Some ''Intro'', p_published = None,
      p_priority = Some 1, p_tags = [], p_issues = [], p_entry = None\<rparr>"

text \<open>
  What the built-ins make of the values of \<open>intro_params\<close>: the title has no white space
  to trim, the REAL column holds the number 1 as it is.
\<close>

definition intro_held :: held where
  "intro_held = \<lparr>h_title = ''Intro'', h_priority = 1, h_issues = []\<rparr>"

text \<open>The pool serving every statement by its first client.\<close>

definition first_client :: "nat \<Rightarrow> bool" where
  "first_client k = False"

text \<open>
  The pool handing the second statement of a call to its second client, and the store
  failing the third statement.
\<close>

definition second_elsewhere :: "nat \<Rightarrow> bool" where
  "second_elsewhere k = (k = 1)"

definition third_fails :: "nat \<Rightarrow> bool" where
  "third_fails k = (k = 2)"

text \<open>
  The session after two successful calls of \<open>setComment\<close> on a fresh one: a comment
  saved as published, and a second one saved without the field \<^verbatim>\<open>published\<close>.
\<close>

definition two_comments :: conn where
  "two_comments =
     snd (setComment first_client no_failure editor (intro_params\<lparr>p_title := Some ''Two''\<rparr>)
            (intro_held\<lparr>h_title := ''Two''\<rparr>)
       (snd (setComment first_client no_failure editor (intro_params\<lparr>p_published := Some True\<rparr>)
               intro_held fresh)))"

section \<open>Properties of the snapshot differ\<close>

lemma set_size_card: "set_size xs = card (set xs)"
  by (simp add: set_size_def length_remdups_card_conv)

lemma scheme_changes_same: "scheme_changes scheme x x = []"
  by (induction scheme) (auto simp: scheme_changes_def)

lemma set_size_self: "distinct xs \<Longrightarrow> set_size (xs @ xs) = length xs"
  by (simp add: set_size_card distinct_card)

text \<open>
  C5. The claim: the tags field is reported as changed exactly when the set of tag ids
  of the earlier snapshot differs from that of the later one. The code compares the
  length of the earlier list with the number of distinct ids of both lists together, so
  a tag that was removed goes unreported: from tags 1, 2 to tag 1 alone the two sets
  differ, and the difference reported is empty.
\<close>

theorem compareRecords_removed_tag_unreported:
  "set (s_tags (empty_snapshot\<lparr>s_title := Some ''A'', s_tags := [1, 2]\<rparr>))
     \<noteq> set (s_tags (empty_snapshot\<lparr>s_title := Some ''A'', s_tags := [1]\<rparr>))
   \<and> compareRecords []
        (empty_snapshot\<lparr>s_title := Some ''A'', s_tags := [1, 2]\<rparr>)
        (empty_snapshot\<lparr>s_title := Some ''A'', s_tags := [1]\<rparr>) = Changed []"
  by (simp add: compareRecords_def empty_snapshot_def title_falsy_def set_size_def
      scheme_changes_def)

text \<open>
  C6, as stated: a snapshot that has a title field compared with itself gives the empty
  list. It fails for a snapshot whose title is the empty string, which the differ takes
  for a creation; and a snapshot whose tag list repeats an id is reported as changed in
  its tags.
\<close>

theorem compareRecords_same_blank_title_created:
  "s_title (empty_snapshot\<lparr>s_title := Some ''''\<rparr>) \<noteq> None
   \<and> compareRecords [] (empty_snapshot\<lparr>s_title := Some ''''\<rparr>)
        (empty_snapshot\<lparr>s_title := Some ''''\<rparr>) = CREATED
   \<and> compareRecords [] (empty_snapshot\<lparr>s_title := Some ''A'', s_tags := [1, 1]\<rparr>)
        (empty_snapshot\<lparr>s_title := Some ''A'', s_tags := [1, 1]\<rparr>)
       = Changed [(''tags'', ''Tags'')]"
  by (simp add: compareRecords_def empty_snapshot_def title_falsy_def set_size_def
      scheme_changes_def)

text \<open>
  C6, amended: a snapshot whose title is a non-empty string and whose tag list has no
  repeated id, compared with itself, gives the empty list of changed fields and no
  creation marker, for every scheme.
\<close>

theorem compareRecords_same_empty:
  assumes "s_title x = Some t" and "t \<noteq> []" and "distinct (s_tags x)"
  shows "compareRecords scheme x x = Changed []"
  using assms
  by (simp add: compareRecords_def title_falsy_def set_size_self scheme_changes_same)

theorem compareRecords_same_empty_witness:
  "compareRecords [(''f1'', ''Note'')]
     (empty_snapshot\<lparr>s_title := Some ''Intro'', s_tags := [3, 1],
        s_entry := Some [(''f1'', JStr ''x'')]\<rparr>)
     (empty_snapshot\<lparr>s_title := Some ''Intro'', s_tags := [3, 1],
        s_entry := Some [(''f1'', JStr ''x'')]\<rparr>) = Changed []"
  by (rule compareRecords_same_empty [where t = "''Intro''"])
     (simp_all add: empty_snapshot_def)

section \<open>Properties of the comment store\<close>

lemmas setComment_defs = setComment_def select_previous_def write_comment_def insert_log_def
  rollback_error_def query_def begin_tx_def commit_tx_def rollback_tx_def modify_def visible_def
  by_client_def visible_by_def swap_clients_def Number_def

text \<open>
  C1. The claim: the write of the comment and the insertion of its log entry happen in
  one transaction, and a failure of any step is answered by an error. Two calls show
  otherwise. In the first the pool runs BEGIN on one client and hands the INSERT of the
  comment to another, where no transaction is open, and the insertion into \<open>logs\<close> then
  fails: the call sends ROLLBACK and returns \<^verbatim>\<open>{ error }\<close>, and the committed tables
  hold the new comment and no log entry. In the second the call updates a comment that
  is not there: the read of the previous row finds nothing, and the call returns \<^verbatim>\<open>{}\<close>
  after that one statement.
\<close>

theorem setComment_comment_without_log:
  "setComment second_elsewhere third_fails editor intro_params intro_held fresh
     = (ErrorResult,
        fresh\<lparr>committed := empty_db\<lparr>comments := [row_of_params 1 1 intro_held intro_params]\<rparr>,
              seq_comments := 1,
              trace := [BEGIN, INSERT_COMMENT, INSERT_LOG, ROLLBACK]\<rparr>)
   \<and> setComment first_client no_failure editor (intro_params\<lparr>p_id := Some 42\<rparr>) intro_held fresh
     = (EmptyObject, fresh\<lparr>trace := [SELECT_COMMENT]\<rparr>)"
  by (simp add: setComment_defs fresh_def empty_db_def no_failure_def first_client_def
      second_elsewhere_def third_fails_def editor_def intro_params_def has_id_def Let_def)

text \<open>
  C7, as stated: a missing title or text id is refused before any transaction is opened.
  With a title and no text id, and no statement failing, the call sends BEGIN and the
  INSERT, which the store refuses, then ROLLBACK, and returns \<^verbatim>\<open>{ error }\<close>.
\<close>

theorem setComment_missing_text_id_begins:
  "p_text_id (intro_params\<lparr>p_text_id := None\<rparr>) = None
   \<and> setComment first_client no_failure editor (intro_params\<lparr>p_text_id := None\<rparr>) intro_held fresh
       = (ErrorResult, fresh\<lparr>trace := [BEGIN, INSERT_COMMENT, ROLLBACK]\<rparr>)"
  by (simp add: setComment_defs fresh_def empty_db_def no_failure_def first_client_def
      editor_def intro_params_def has_id_def Let_def)

text \<open>
  C7, amended. Without a title the call throws (the TypeError of
  \<^verbatim>\<open>params.title.trim()\<close>) before any statement is sent: the session is the one from
  before the call. With a title and without a text id nothing is checked before the
  transaction; the call returns \<^verbatim>\<open>{ error }\<close>, or \<^verbatim>\<open>{}\<close> when the read of the previous
  row failed, and the committed tables are left as they were. This holds whichever
  client serves each statement.
\<close>

theorem setComment_missing_fields:
  assumes "pending c = None" and "setComment serves fails usr params h c = (r, c')"
  shows "(p_title params = None \<longrightarrow> r = Thrown \<and> c' = c)
       \<and> (p_title params \<noteq> None \<and> p_text_id params = None \<longrightarrow>
            (r = ErrorResult \<or> r = EmptyObject) \<and> committed c' = committed c)"
  using assms
  by (auto simp: setComment_defs Let_def split: option.splits if_splits jsnum.splits prod.splits)

theorem setComment_missing_fields_witness:
  "pending fresh = None
   \<and> setComment first_client no_failure editor (intro_params\<lparr>p_title := None\<rparr>) intro_held fresh
       = (Thrown, fresh)
   \<and> fst (setComment first_client no_failure editor (intro_params\<lparr>p_text_id := None\<rparr>)
            intro_held fresh) = ErrorResult
   \<and> committed (snd (setComment first_client no_failure editor (intro_params\<lparr>p_text_id := None\<rparr>)
                        intro_held fresh))
       = committed fresh"
  using setComment_missing_fields [of fresh first_client no_failure editor
      "intro_params\<lparr>p_title := None\<rparr>" intro_held Thrown fresh]
    setComment_missing_fields [of fresh first_client no_failure editor
      "intro_params\<lparr>p_text_id := None\<rparr>" intro_held
      "fst (setComment first_client no_failure editor (intro_params\<lparr>p_text_id := None\<rparr>)
              intro_held fresh)"
      "snd (setComment first_client no_failure editor (intro_params\<lparr>p_text_id := None\<rparr>)
              intro_held fresh)"]
  by (simp add: setComment_defs fresh_def empty_db_def no_failure_def first_client_def
      editor_def intro_params_def has_id_def Let_def)

section \<open>Properties of the session\<close>

lemma visible_modify: "visible (modify f c) = f (visible c)"
  by (simp add: visible_def modify_def split: option.splits)

lemma visible_trace: "visible (c\<lparr>trace := t\<rparr>) = visible c"
  by (simp add: visible_def split: option.splits)

lemma visible_seq_tokens: "visible (c\<lparr>seq_tokens := n\<rparr>) = visible c"
  by (simp add: visible_def split: option.splits)

lemma visible_seq_strings: "visible (c\<lparr>seq_strings := n\<rparr>) = visible c"
  by (simp add: visible_def split: option.splits)


lemma seq_strings_modify: "seq_strings (modify f c) = seq_strings c"
  by (simp add: modify_def split: option.splits)

lemma visible_begin_tx: "pending c = None \<Longrightarrow> visible (begin_tx c) = committed c"
  by (simp add: visible_def begin_tx_def)

lemma committed_commit_tx: "pending c \<noteq> None \<Longrightarrow> committed (commit_tx c) = visible c"
  by (auto simp: visible_def commit_tx_def)

section \<open>Properties of the corpus ingestion\<close>


lemmas tx_defs = query_def begin_tx_def commit_tx_def rollback_tx_def modify_def visible_def

lemma insert_items_tx:
  assumes "insert_items fails textId langId batch c = (ok, c')" and "pending c \<noteq> None"
  shows "committed c' = committed c \<and> pending c' \<noteq> None"
  using assms
proof (induction batch arbitrary: c)
  case Nil
  then show ?case by simp
next
  case (Cons it rest)
  then show ?case
    by (auto simp: tx_defs Let_def split: option.splits if_splits prod.splits)
qed

lemma insert_items_ok:
  assumes "insert_items fails textId langId batch c = (True, c')"
  shows "length (trace c') = length (trace c) + 2 * length batch
       \<and> (\<forall>k. length (trace c) \<le> k \<and> k < length (trace c) + 2 * length batch \<longrightarrow> \<not> fails k)"
  using assms
proof (induction batch arbitrary: c)
  case Nil
  then show ?case by auto
next
  case (Cons it rest)
  show ?case
  proof (cases "i_repr it")
    case None
    with Cons.prems show ?thesis by (simp add: tx_defs Let_def split: prod.splits)
  next
    case (Some token)
    let ?c2 = "modify (insert_token (seq_tokens c + 1) token langId (i_meta it))
                 (c\<lparr>trace := trace c @ [INSERT_TOKEN], seq_tokens := seq_tokens c + 1\<rparr>)"
    let ?c3 = "?c2\<lparr>trace := trace ?c2 @ [INSERT_STRING]\<rparr>"
    let ?c4 = "modify (insert_string (seq_strings ?c3 + 1) textId it)
                 (?c3\<lparr>seq_strings := seq_strings ?c3 + 1\<rparr>)"
    from Cons.prems Some have f1: "\<not> fails (length (trace c))"
      and f2: "\<not> fails (Suc (length (trace c)))"
      and rest: "insert_items fails textId langId rest ?c4 = (True, c')"
      by (auto simp: query_def Let_def modify_def split: if_splits option.splits)
    have len: "length (trace ?c4) = length (trace c) + 2"
      by (simp add: modify_def split: option.splits)
    from Cons.IH [OF rest] len
    have a: "length (trace c') = length (trace c) + 2 + 2 * length rest"
      and b: "\<forall>k. length (trace c) + 2 \<le> k \<and> k < length (trace c) + 2 + 2 * length rest \<longrightarrow> \<not> fails k"
      by simp_all
    show ?thesis
    proof (intro conjI allI impI)
      show "length (trace c') = length (trace c) + 2 * length (it # rest)"
        using a by simp
    next
      fix k assume k: "length (trace c) \<le> k \<and> k < length (trace c) + 2 * length (it # rest)"
      show "\<not> fails k"
      proof (cases "k < length (trace c) + 2")
        case True
        with k have "k = length (trace c) \<or> k = Suc (length (trace c))" by arith
        with f1 f2 show ?thesis by auto
      next
        case False
        with k b show ?thesis by simp
      qed
    qed
  qed
qed

lemma ingest_body_failed:
  assumes "ingest_body fails textId batch langId c = (False, c')" and "pending c = None"
  shows "committed c' = committed c"
proof (cases "fails (length (trace c))")
  case True
  with assms show ?thesis by (auto simp: ingest_body_def query_def)
next
  case False
  let ?c0 = "begin_tx (c\<lparr>trace := trace c @ [BEGIN]\<rparr>)"
  obtain ok1 c1 where loop: "insert_items fails textId langId batch ?c0 = (ok1, c1)"
    by (cases "insert_items fails textId langId batch ?c0") auto
  have "pending ?c0 \<noteq> None" using assms(2) by (simp add: begin_tx_def)
  from insert_items_tx [OF loop this] assms(2)
  have c1: "committed c1 = committed c" "pending c1 \<noteq> None"
    by (simp_all add: begin_tx_def)
  from assms(1) False loop c1 show ?thesis
    by (auto simp: ingest_body_def tx_defs Let_def split: if_splits bool.splits option.splits)
qed

lemma ingest_body_ok:
  assumes "ingest_body fails textId batch langId c = (True, c')"
  shows "\<forall>k. length (trace c) \<le> k \<and> k \<le> length (trace c) + 2 * length batch + 2 \<longrightarrow> \<not> fails k"
proof (intro allI impI)
  fix k assume k: "length (trace c) \<le> k \<and> k \<le> length (trace c) + 2 * length batch + 2"
  let ?n = "length (trace c)"
  let ?c0 = "begin_tx (c\<lparr>trace := trace c @ [BEGIN]\<rparr>)"
  from assms have f0: "\<not> fails ?n"
    by (auto simp: ingest_body_def query_def Let_def split: if_splits)
  obtain ok1 c1 where loop: "insert_items fails textId langId batch ?c0 = (ok1, c1)"
    by (cases "insert_items fails textId langId batch ?c0") auto
  from assms f0 loop have ok1: "ok1"
    by (auto simp: ingest_body_def query_def Let_def split: if_splits bool.splits)
  have n0: "length (trace ?c0) = Suc ?n"
    by (simp add: begin_tx_def split: option.splits)
  from insert_items_ok [of fails textId langId batch ?c0 c1] loop ok1 n0
  have len1: "length (trace c1) = Suc ?n + 2 * length batch"
    and mid: "\<forall>k. Suc ?n \<le> k \<and> k < Suc ?n + 2 * length batch \<longrightarrow> \<not> fails k"
    by simp_all
  from assms f0 loop ok1 len1 have f2: "\<not> fails (Suc ?n + 2 * length batch)"
    by (auto simp: ingest_body_def query_def Let_def split: if_splits bool.splits)
  from assms f0 loop ok1 len1 f2 have f3: "\<not> fails (Suc (Suc ?n + 2 * length batch))"
    by (auto simp: ingest_body_def query_def modify_def Let_def
        split: if_splits bool.splits option.splits)
  from k have "k = ?n \<or> (Suc ?n \<le> k \<and> k < Suc ?n + 2 * length batch)
      \<or> k = Suc ?n + 2 * length batch \<or> k = Suc (Suc ?n + 2 * length batch)"
    by arith
  with f0 mid f2 f3 show "\<not> fails k" by auto
qed

lemma insert_items_succeeds:
  assumes "\<And>k. \<not> fails k" and "list_all (\<lambda>it. i_repr it \<noteq> None) batch"
  shows "fst (insert_items fails textId langId batch c) = True"
  using assms(2)
proof (induction batch arbitrary: c)
  case Nil
  then show ?case by simp
next
  case (Cons it rest)
  then show ?case
    using assms(1) by (auto simp: query_def Let_def split: option.splits prod.splits)
qed

lemma insertBatchIntoStrings_succeeds:
  assumes "\<And>k. \<not> fails k" and "list_all (\<lambda>it. i_repr it \<noteq> None) batch"
  shows "fst (insertBatchIntoStrings fails textId batch langId c) = Secs"
proof -
  let ?c0 = "begin_tx (c\<lparr>trace := trace c @ [CONNECT, BEGIN]\<rparr>)"
  obtain ok1 c1 where loop: "insert_items fails textId langId batch ?c0 = (ok1, c1)"
    by (cases "insert_items fails textId langId batch ?c0") auto
  have "fst (insert_items fails textId langId batch ?c0) = True"
    by (rule insert_items_succeeds [OF assms])
  with loop have "ok1" by simp
  with loop assms(1) show ?thesis
    by (simp add: insertBatchIntoStrings_def ingest_body_def query_def Let_def)
qed

lemma insertBatchIntoStrings_rolls_back:
  assumes "insertBatchIntoStrings fails textId batch langId c = (r, c')"
    and "\<not> fails (length (trace c))" and "r \<noteq> Secs"
  shows "last (trace c') = ROLLBACK
       \<and> (if fails (length (trace c') - 1) then r = Rejected
          else r = Undefined \<and> pending c' = None)"
proof -
  let ?c0 = "c\<lparr>trace := trace c @ [CONNECT]\<rparr>"
  obtain ok1 c1 where body: "ingest_body fails textId batch langId ?c0 = (ok1, c1)"
    by (cases "ingest_body fails textId batch langId ?c0") auto
  with assms have "\<not> ok1"
    by (auto simp: insertBatchIntoStrings_def query_def Let_def split: if_splits)
  with assms(1,2) body show ?thesis
    by (auto simp: insertBatchIntoStrings_def query_def rollback_tx_def Let_def split: if_splits)
qed

text \<open>
  C2. On a session with no transaction open, a call of \<open>insertBatchIntoStrings\<close> that
  does not return the elapsed seconds leaves the committed tables as they were: no row of
  \<open>strings\<close> or \<open>tokens\<close> of the batch remains. When it returns \<^verbatim>\<open>undefined\<close> the
  transaction has been rolled back, by the last statement sent. And when any statement
  of the call fails (the connection, BEGIN, either INSERT of any item, the last one
  included, the linking UPDATE, or COMMIT) the call does not return the seconds and
  commits nothing; if it is the connection that fails, nothing else is sent and the
  promise is rejected; otherwise the last statement sent is ROLLBACK, and the call
  returns \<^verbatim>\<open>undefined\<close> with the transaction closed, unless that ROLLBACK fails too,
  which rejects the promise.
\<close>

theorem insertBatchIntoStrings_all_or_nothing:
  assumes "pending c = None"
    and "insertBatchIntoStrings fails textId batch langId c = (r, c')"
  shows "(r \<noteq> Secs \<longrightarrow> committed c' = committed c)
       \<and> (r = Undefined \<longrightarrow> pending c' = None \<and> last (trace c') = ROLLBACK)
       \<and> ((\<exists>k. length (trace c) \<le> k \<and> k \<le> length (trace c) + 2 * length batch + 3 \<and> fails k)
            \<longrightarrow> r \<noteq> Secs \<and> committed c' = committed c
              \<and> (if fails (length (trace c))
                 then r = Rejected \<and> trace c' = trace c @ [CONNECT]
                 else last (trace c') = ROLLBACK
                      \<and> (if fails (length (trace c') - 1) then r = Rejected
                         else r = Undefined \<and> pending c' = None)))"
proof -
  let ?c0 = "c\<lparr>trace := trace c @ [CONNECT]\<rparr>"
  obtain ok1 c1 where body: "ingest_body fails textId batch langId ?c0 = (ok1, c1)"
    by (cases "ingest_body fails textId batch langId ?c0") auto
  have p0: "pending ?c0 = None" using assms(1) by simp
  have unchanged: "r \<noteq> Secs \<longrightarrow> committed c' = committed c"
  proof (cases ok1)
    case True
    with assms(2) body show ?thesis
      by (auto simp: insertBatchIntoStrings_def query_def Let_def split: if_splits)
  next
    case False
    with body ingest_body_failed [of fails textId batch langId ?c0 c1] p0
    have "committed c1 = committed c" by simp
    with assms(2) body False show ?thesis
      by (auto simp: insertBatchIntoStrings_def query_def rollback_tx_def Let_def split: if_splits)
  qed
  have rolled: "r = Undefined \<longrightarrow> pending c' = None \<and> last (trace c') = ROLLBACK"
    using assms(2) body
    by (auto simp: insertBatchIntoStrings_def query_def rollback_tx_def Let_def
        split: if_splits bool.splits)
  have secs: "r = Secs \<Longrightarrow>
      \<forall>k. length (trace c) \<le> k \<and> k \<le> length (trace c) + 2 * length batch + 3 \<longrightarrow> \<not> fails k"
  proof (intro allI impI)
    fix k assume r: "r = Secs"
      and k: "length (trace c) \<le> k \<and> k \<le> length (trace c) + 2 * length batch + 3"
    from r assms(2) body have fc: "\<not> fails (length (trace c))" and ok1: "ok1"
      by (auto simp: insertBatchIntoStrings_def query_def Let_def split: if_splits bool.splits)
    from ingest_body_ok [of fails textId batch langId ?c0 c1] body ok1
    have "\<forall>k. Suc (length (trace c)) \<le> k \<and> k \<le> Suc (length (trace c)) + 2 * length batch + 2
            \<longrightarrow> \<not> fails k" by simp
    moreover from k have "k = length (trace c)
        \<or> (Suc (length (trace c)) \<le> k \<and> k \<le> Suc (length (trace c)) + 2 * length batch + 2)"
      by arith
    ultimately show "\<not> fails k" using fc by auto
  qed
  have connect: "fails (length (trace c)) \<longrightarrow> r = Rejected \<and> trace c' = trace c @ [CONNECT]"
    using assms(2) by (auto simp: insertBatchIntoStrings_def query_def Let_def)
  have after: "\<not> fails (length (trace c)) \<and> r \<noteq> Secs \<longrightarrow>
      last (trace c') = ROLLBACK
      \<and> (if fails (length (trace c') - 1) then r = Rejected
         else r = Undefined \<and> pending c' = None)"
    using insertBatchIntoStrings_rolls_back [OF assms(2)] by blast
  from unchanged rolled secs connect after show ?thesis by (auto split: if_splits)
qed

text \<open>
  On the two records of \<open>cats\<close>, with the INSERT into \<open>strings\<close> of the last record
  failing: the statements sent, the result and the session afterwards.
\<close>

lemma cats_last_insert_fails:
  "insertBatchIntoStrings (\<lambda>k. k = 5) 1 cats (Some ''en'') fresh
     = (Undefined,
        fresh\<lparr>seq_tokens := 2, seq_strings := 1,
              trace := [CONNECT, BEGIN, INSERT_TOKEN, INSERT_STRING, INSERT_TOKEN, INSERT_STRING,
                        ROLLBACK]\<rparr>)"
  by (simp add: insertBatchIntoStrings_def ingest_body_def tx_defs fresh_def empty_db_def
      cats_def Let_def)

theorem insertBatchIntoStrings_all_or_nothing_witness:
  "pending fresh = None
   \<and> fst (insertBatchIntoStrings (\<lambda>k. k = 5) 1 cats (Some ''en'') fresh) = Undefined
   \<and> committed (snd (insertBatchIntoStrings (\<lambda>k. k = 5) 1 cats (Some ''en'') fresh)) = empty_db
   \<and> pending (snd (insertBatchIntoStrings (\<lambda>k. k = 5) 1 cats (Some ''en'') fresh)) = None
   \<and> last (trace (snd (insertBatchIntoStrings (\<lambda>k. k = 5) 1 cats (Some ''en'') fresh)))
       = ROLLBACK"
proof -
  let ?X = "insertBatchIntoStrings (\<lambda>k. k = 5) 1 cats (Some ''en'') fresh"
  have p: "pending fresh = None" by (simp add: fresh_def)
  have k: "\<exists>k. length (trace fresh) \<le> k \<and> k \<le> length (trace fresh) + 2 * length cats + 3
             \<and> (\<lambda>k. k = 5) k"
    by (simp add: fresh_def cats_def)
  have n0: "\<not> (\<lambda>k. k = 5) (length (trace fresh))" by (simp add: fresh_def)
  have n1: "\<not> (\<lambda>k. k = 5) (length (trace (snd ?X)) - 1)"
    by (simp add: cats_last_insert_fails)
  from insertBatchIntoStrings_all_or_nothing [OF p, of "\<lambda>k. k = 5" 1 cats "Some ''en''"
      "fst ?X" "snd ?X"] k n0 n1
  have "fst ?X = Undefined \<and> committed (snd ?X) = committed fresh
      \<and> pending (snd ?X) = None \<and> last (trace (snd ?X)) = ROLLBACK"
    by simp
  then show ?thesis by (simp add: fresh_def)
qed

lemma token_conflict_metas: "token_conflict tok (Some l) d \<longleftrightarrow> token_metas tok l d \<noteq> []"
  by (auto simp: token_conflict_def token_metas_def list_ex_iff filter_empty_conv)

lemma token_metas_insert_token:
  "token_metas tok l (insert_token i tok' (Some l) m d)
     = (if tok' = tok \<and> token_metas tok l d = [] then [m] else token_metas tok l d)"
proof (cases "token_conflict tok' (Some l) d")
  case True
  then show ?thesis
    by (auto simp: insert_token_def token_conflict_metas)
next
  case False
  then show ?thesis
    by (auto simp: insert_token_def token_conflict_metas token_metas_def)
qed

lemma token_metas_insert_string:
  "token_metas tok l (insert_string i t it d) = token_metas tok l d"
  by (simp add: token_metas_def insert_string_def)

lemma token_metas_link_tokens:
  "token_metas tok l (link_tokens lang d) = token_metas tok l d"
  by (simp add: token_metas_def link_tokens_def)

lemma insert_items_tokens:
  assumes "insert_items fails textId (Some l) batch c = (True, c')"
  shows "token_metas tok l (visible c')
           = first_seen tok batch (token_metas tok l (visible c))"
  using assms
proof (induction batch arbitrary: c)
  case Nil
  then show ?case by (auto simp: first_seen_def split: list.splits)
next
  case (Cons it rest)
  from Cons.prems obtain token where tk: "i_repr it = Some token"
    by (cases "i_repr it") (auto simp: query_def Let_def)
  let ?d1 = "insert_string (seq_strings c + 1) textId it
               (insert_token (seq_tokens c + 1) token (Some l) (i_meta it) (visible c))"
  from Cons.prems tk have "\<exists>c4. insert_items fails textId (Some l) rest c4 = (True, c')
      \<and> visible c4 = ?d1"
    by (auto simp: query_def Let_def visible_modify visible_trace visible_seq_tokens
        visible_seq_strings seq_strings_modify split: if_splits)
  then obtain c4 where rest: "insert_items fails textId (Some l) rest c4 = (True, c')"
    and v4: "visible c4 = ?d1" by blast
  from Cons.IH [OF rest] v4
  have m: "token_metas tok l (visible c') = first_seen tok rest (token_metas tok l ?d1)"
    by simp
  have "first_seen tok rest (token_metas tok l ?d1)
          = first_seen tok (it # rest) (token_metas tok l (visible c))"
    using tk
    by (auto simp: token_metas_insert_string token_metas_insert_token first_seen_def
        split: list.splits)
  with m show ?case by simp
qed

lemma first_token_wins_of_run:
  assumes "pending c = None"
    and "insertBatchIntoStrings fails textId batch (Some lang) c = (Secs, c')"
    and "find (\<lambda>it. i_repr it = Some tok) batch = Some first"
  shows "token_metas tok lang (committed c')
           = (case token_metas tok lang (committed c) of
                [] \<Rightarrow> [i_meta first]
              | m # ms \<Rightarrow> m # ms)
       \<and> (length (token_metas tok lang (committed c)) \<le> 1
            \<longrightarrow> length (token_metas tok lang (committed c')) = 1)"
proof -
  let ?c0 = "begin_tx (c\<lparr>trace := trace c @ [CONNECT, BEGIN]\<rparr>)"
  obtain okb cb where b0: "ingest_body fails textId batch (Some lang)
      (c\<lparr>trace := trace c @ [CONNECT]\<rparr>) = (okb, cb)"
    by (cases "ingest_body fails textId batch (Some lang) (c\<lparr>trace := trace c @ [CONNECT]\<rparr>)") auto
  with assms(2) have body: "ingest_body fails textId batch (Some lang)
      (c\<lparr>trace := trace c @ [CONNECT]\<rparr>) = (True, c')"
    by (auto simp: insertBatchIntoStrings_def query_def Let_def split: if_splits bool.splits)
  obtain ok1 c1 where loop: "insert_items fails textId (Some lang) batch ?c0 = (ok1, c1)"
    by (cases "insert_items fails textId (Some lang) batch ?c0") auto
  from body loop have ok1: "ok1"
    by (auto simp: ingest_body_def query_def Let_def split: if_splits bool.splits)
  have p0: "pending ?c0 \<noteq> None" and v0: "visible ?c0 = committed c"
    using assms(1) by (simp_all add: begin_tx_def visible_def)
  from insert_items_tx [OF loop p0] have p1: "pending c1 \<noteq> None" by simp
  from insert_items_tokens [of fails textId lang batch ?c0 c1 tok] loop ok1 v0
  have m: "token_metas tok lang (visible c1)
             = first_seen tok batch (token_metas tok lang (committed c))"
    by simp
  let ?c3 = "modify (link_tokens (Some lang)) (c1\<lparr>trace := trace c1 @ [UPDATE_STRINGS_TOKEN]\<rparr>)"
  have p3: "pending (?c3\<lparr>trace := trace ?c3 @ [COMMIT]\<rparr>) \<noteq> None"
    using p1 by (simp add: modify_def split: option.splits)
  from body loop ok1
  have "c' = commit_tx (?c3\<lparr>trace := trace ?c3 @ [COMMIT]\<rparr>)"
    by (auto simp: ingest_body_def query_def Let_def split: if_splits bool.splits)
  with committed_commit_tx [OF p3]
  have "committed c' = link_tokens (Some lang) (visible c1)"
    by (simp add: visible_trace visible_modify)
  with m assms(3) have eq: "token_metas tok lang (committed c')
           = (case token_metas tok lang (committed c) of
                [] \<Rightarrow> [i_meta first]
              | m # ms \<Rightarrow> m # ms)"
    by (simp add: token_metas_link_tokens first_seen_def split: list.splits)
  then show ?thesis
    by (cases "token_metas tok lang (committed c)") auto
qed

text \<open>
  C4. For a call of \<open>insertBatchIntoStrings\<close> on a session with no transaction open, a
  token that occurs in the batch (once or several times, \<open>first\<close> being its first record)
  and the language of the call. When the call succeeds: if \<open>tokens\<close> had no row for the
  pair, it now has exactly one, with the metadata of \<open>first\<close>; if it had rows, they are
  the ones it has now, with their metadata; so a table that was unique in the pair holds
  exactly one row for it. And the call does succeed when no statement fails and every
  record carries a token.
\<close>

theorem insertBatchIntoStrings_first_token_wins:
  assumes "pending c = None"
    and "insertBatchIntoStrings fails textId batch (Some lang) c = (r, c')"
    and "find (\<lambda>it. i_repr it = Some tok) batch = Some first"
  shows "(r = Secs \<longrightarrow>
            token_metas tok lang (committed c')
              = (case token_metas tok lang (committed c) of
                   [] \<Rightarrow> [i_meta first]
                 | m # ms \<Rightarrow> m # ms)
            \<and> (length (token_metas tok lang (committed c)) \<le> 1
                 \<longrightarrow> length (token_metas tok lang (committed c')) = 1))
       \<and> ((\<forall>k. \<not> fails k) \<and> list_all (\<lambda>it. i_repr it \<noteq> None) batch \<longrightarrow> r = Secs)"
proof (rule conjI)
  show "r = Secs \<longrightarrow>
          token_metas tok lang (committed c')
            = (case token_metas tok lang (committed c) of
                 [] \<Rightarrow> [i_meta first]
               | m # ms \<Rightarrow> m # ms)
          \<and> (length (token_metas tok lang (committed c)) \<le> 1
               \<longrightarrow> length (token_metas tok lang (committed c')) = 1)"
  proof (rule impI)
    assume "r = Secs"
    with assms(2) have run: "insertBatchIntoStrings fails textId batch (Some lang) c = (Secs, c')"
      by simp
    show "token_metas tok lang (committed c')
            = (case token_metas tok lang (committed c) of
                 [] \<Rightarrow> [i_meta first]
               | m # ms \<Rightarrow> m # ms)
          \<and> (length (token_metas tok lang (committed c)) \<le> 1
               \<longrightarrow> length (token_metas tok lang (committed c')) = 1)"
      by (rule first_token_wins_of_run [OF assms(1) run assms(3)])
  qed
next
  show "(\<forall>k. \<not> fails k) \<and> list_all (\<lambda>it. i_repr it \<noteq> None) batch \<longrightarrow> r = Secs"
  proof (rule impI)
    assume a: "(\<forall>k. \<not> fails k) \<and> list_all (\<lambda>it. i_repr it \<noteq> None) batch"
    then have "fst (insertBatchIntoStrings fails textId batch (Some lang) c) = Secs"
      by (intro insertBatchIntoStrings_succeeds) simp_all
    with assms(2) show "r = Secs" by simp
  qed
qed

theorem insertBatchIntoStrings_first_token_wins_witness:
  "pending fresh = None
   \<and> fst (insertBatchIntoStrings no_failure 1 cats (Some ''en'') fresh) = Secs
   \<and> find (\<lambda>it. i_repr it = Some ''cat'') cats = Some (hd cats)
   \<and> i_meta (hd cats) = Some ''word''
   \<and> token_metas ''cat'' ''en''
        (committed (snd (insertBatchIntoStrings no_failure 1 cats (Some ''en'') fresh)))
       = [Some ''word'']"
proof -
  have p: "pending fresh = None" by (simp add: fresh_def)
  have run: "insertBatchIntoStrings no_failure 1 cats (Some ''en'') fresh
      = (fst (insertBatchIntoStrings no_failure 1 cats (Some ''en'') fresh),
         snd (insertBatchIntoStrings no_failure 1 cats (Some ''en'') fresh))"
    by simp
  have f: "find (\<lambda>it. i_repr it = Some ''cat'') cats = Some (hd cats)"
    by (simp add: cats_def)
  have m: "i_meta (hd cats) = Some ''word''" by (simp add: cats_def)
  have e: "token_metas ''cat'' ''en'' (committed fresh) = []"
    by (simp add: token_metas_def fresh_def empty_db_def)
  have n: "(\<forall>k. \<not> no_failure k) \<and> list_all (\<lambda>it. i_repr it \<noteq> None) cats"
    by (simp add: no_failure_def cats_def)
  from insertBatchIntoStrings_first_token_wins [OF p run f] n
  have ok: "fst (insertBatchIntoStrings no_failure 1 cats (Some ''en'') fresh) = Secs"
    by blast
  with insertBatchIntoStrings_first_token_wins [OF p run f] e m
  have "token_metas ''cat'' ''en''
        (committed (snd (insertBatchIntoStrings no_failure 1 cats (Some ''en'') fresh)))
       = [Some ''word'']" by simp
  with p ok f m show ?thesis by simp
qed

section \<open>Properties of the revision log retrieval\<close>

lemma filter_key_le1:
  "distinct (map f xs) \<Longrightarrow> length (filter (\<lambda>x. f x = k) xs) \<le> Suc 0"
proof (induction xs)
  case Nil
  then show ?case by simp
next
  case (Cons a xs)
  show ?case
  proof (cases "f a = k")
    case True
    from Cons.prems have "f a \<notin> f ` set xs" by simp
    with True have "\<forall>x \<in> set xs. f x \<noteq> k" by blast
    then have "filter (\<lambda>x. f x = k) xs = []" by (simp add: filter_empty_conv)
    with True show ?thesis by simp
  next
    case False
    with Cons show ?thesis by simp
  qed
qed

lemma left_join_comments_single:
  assumes "distinct (map c_id cs)"
  shows "left_join_comments ls cs
           = map (\<lambda>l. (l, list_ex (\<lambda>r. c_id r = l_record_id l) cs)) ls"
proof -
  have one: "(case filter (\<lambda>r. c_id r = k) cs of [] \<Rightarrow> [(l, False)]
               | ms \<Rightarrow> map (\<lambda>r. (l, True)) ms)
             = [(l, list_ex (\<lambda>r. c_id r = k) cs)]" for k and l :: log_row
  proof (cases "filter (\<lambda>r. c_id r = k) cs")
    case Nil
    then show ?thesis by (simp add: list_ex_iff filter_empty_conv)
  next
    case (Cons m ms)
    with filter_key_le1 [OF assms, of k] have ms: "ms = []" by simp
    from Cons have "m \<in> set (filter (\<lambda>r. c_id r = k) cs)" by simp
    then have "list_ex (\<lambda>r. c_id r = k) cs" by (auto simp: list_ex_iff)
    with Cons ms show ?thesis by simp
  qed
  show ?thesis
    unfolding left_join_comments_def by (induction ls) (simp_all add: one)
qed

lemma matching_joined:
  "map fst (filter (\<lambda>x. P (fst x)) (map (\<lambda>l. (l, g l)) ls)) = filter P ls"
  by (induction ls) auto

lemma distinct_keys_sort_key:
  "distinct (map f xs) \<Longrightarrow> distinct (map f (sort_key f xs))"
  by (induction xs) (auto simp: distinct_insort_key)

lemma order_desc_newer:
  assumes "distinct (map (l_id \<circ> fst) rows)"
  shows "sorted_wrt newer (map fst (order_desc rows))"
proof -
  have "inj_on log_key (set rows)"
    using assms by (auto simp: distinct_map inj_on_def log_key_def)
  with assms have "distinct (map log_key rows)"
    by (simp add: distinct_map)
  then have "distinct (map log_key (sort_key log_key rows))"
    by (rule distinct_keys_sort_key)
  then have "sorted_wrt (<) (map log_key (sort_key log_key rows))"
    by (simp add: strict_sorted_iff)
  then have "sorted_wrt (\<lambda>a b. log_key b < log_key a) (order_desc rows)"
    by (simp add: order_desc_def sorted_wrt_rev sorted_wrt_map)
  moreover have "log_key b < log_key a \<longleftrightarrow> newer (fst a) (fst b)" for a b
    by (auto simp: log_key_def newer_def less_prod_def)
  ultimately show ?thesis
    by (simp add: sorted_wrt_map)
qed

lemma map_fst_order_desc_set: "set (order_desc rows) = set rows"
  by (simp add: order_desc_def)

lemma length_order_desc: "length (order_desc rows) = length rows"
  by (simp add: order_desc_def)

lemma getLogs_page_of_run:
  assumes "getLogs fails params c = (Some page, c')"
    and "distinct (map c_id (comments (visible c)))"
    and "distinct (map l_id (logs (visible c)))"
    and "0 < P" and "lp_limit params = P" and "lp_offset params = (k - 1) * P"
    and "N = length (filter (log_matches (truthy_num (lp_comment params)) (or_one (lp_id params)))
                 (logs (visible c)))"
  shows "length (lr_data page) = min P (N - (k - 1) * P)
       \<and> lr_count page = N
       \<and> sorted_wrt newer (map fst (lr_data page))
       \<and> set (map fst (lr_data page))
           \<subseteq> set (filter (log_matches (truthy_num (lp_comment params)) (or_one (lp_id params)))
                 (logs (visible c)))"
proof -
  let ?m = "log_matches (truthy_num (lp_comment params)) (or_one (lp_id params))"
  let ?d = "visible c"
  let ?g = "\<lambda>l. list_ex (\<lambda>r. c_id r = l_record_id l) (comments ?d)"
  let ?rows = "filter (\<lambda>x. ?m (fst x)) (map (\<lambda>l. (l, ?g l)) (logs ?d))"
  have vis: "visible (c\<lparr>trace := t\<rparr>) = ?d" for t
    by (simp add: visible_def split: option.splits)
  from assms(1) have data: "lr_data page = select_logs params ?d"
    and cnt: "lr_count page = count_logs params ?d"
    by (auto simp: getLogs_def query_def Let_def vis split: if_splits)
  have sel: "lr_data page = take P (drop ((k - 1) * P) (order_desc ?rows))"
    using assms(4,5,6) by (simp add: data select_logs_def left_join_comments_single [OF assms(2)])
  have fst_rows: "map fst ?rows = filter ?m (logs ?d)"
    by (rule matching_joined)
  have "length ?rows = length (map fst ?rows)" by simp
  also have "\<dots> = N" unfolding fst_rows using assms(7) by simp
  finally have len_rows: "length ?rows = N" .
  have "distinct (map l_id (map fst ?rows))"
    using assms(3) by (simp only: fst_rows distinct_map_filter)
  then have "distinct (map (l_id \<circ> fst) ?rows)" by simp
  then have "sorted_wrt newer (map fst (order_desc ?rows))"
    by (rule order_desc_newer)
  then have "sorted_wrt newer (drop ((k - 1) * P) (map fst (order_desc ?rows)))"
    by (rule sorted_wrt_drop)
  then have "sorted_wrt newer (take P (drop ((k - 1) * P) (map fst (order_desc ?rows))))"
    by (rule sorted_wrt_take)
  then have srt: "sorted_wrt newer (map fst (lr_data page))"
    by (simp only: sel take_map drop_map)
  have "set (lr_data page) \<subseteq> set ?rows"
  proof
    fix x assume "x \<in> set (lr_data page)"
    then have "x \<in> set (drop ((k - 1) * P) (order_desc ?rows))"
      unfolding sel by (rule in_set_takeD)
    then have "x \<in> set (order_desc ?rows)" by (rule in_set_dropD)
    then show "x \<in> set ?rows" by (simp only: map_fst_order_desc_set)
  qed
  then have "fst ` set (lr_data page) \<subseteq> fst ` set ?rows" by (rule image_mono)
  then have sub: "set (map fst (lr_data page)) \<subseteq> set (filter ?m (logs ?d))"
    by (simp only: fst_rows [symmetric] set_map)
  have "length (lr_data page) = min (length (order_desc ?rows) - (k - 1) * P) P"
    unfolding sel by (simp only: length_take length_drop)
  then have len: "length (lr_data page) = min P (N - (k - 1) * P)"
    by (simp only: length_order_desc len_rows min.commute)
  from len cnt srt sub assms(7) show ?thesis
    by (simp add: count_logs_def)
qed





lemma getLogs_returns:
  assumes "\<not> fails (length (trace c))" and "\<not> fails (Suc (length (trace c)))"
  shows "\<exists>page c'. getLogs fails params c = (Some page, c')"
  using assms by (simp add: getLogs_def query_def Let_def)

text \<open>
  C3. A call of \<open>getLogs\<close> whose two queries succeed returns a page and a count. On
  tables whose primary keys are distinct,
  with a page size \<open>P > 0\<close> as the limit and \<open>(k - 1) * P\<close> as the offset, and \<open>N\<close> the
  number of rows of \<open>logs\<close> that pass the filter (the text id, and the record id when
  one is given): the page holds \<open>min P (N - (k - 1) * P)\<close> rows (none once the offset
  passes \<open>N\<close>: the subtraction is that of the naturals), the count is \<open>N\<close> whatever
  the page, the rows are strictly ordered by descending creation time and then
  descending id, and each of them passes the filter.
\<close>

theorem getLogs_page:
  assumes "\<not> fails (length (trace c))" and "\<not> fails (Suc (length (trace c)))"
    and "distinct (map c_id (comments (visible c)))"
    and "distinct (map l_id (logs (visible c)))"
    and "0 < P" and "lp_limit params = P" and "lp_offset params = (k - 1) * P"
    and "N = length (filter (log_matches (truthy_num (lp_comment params)) (or_one (lp_id params)))
                 (logs (visible c)))"
  shows "\<exists>page c'. getLogs fails params c = (Some page, c')
       \<and> length (lr_data page) = min P (N - (k - 1) * P)
       \<and> lr_count page = N
       \<and> sorted_wrt newer (map fst (lr_data page))
       \<and> set (map fst (lr_data page))
           \<subseteq> set (filter (log_matches (truthy_num (lp_comment params)) (or_one (lp_id params)))
                 (logs (visible c)))"
proof -
  from getLogs_returns [OF assms(1,2)] obtain page c'
    where run: "getLogs fails params c = (Some page, c')" by blast
  from getLogs_page_of_run [OF run assms(3-8)] run show ?thesis by blast
qed

lemma second_page_run:
  "getLogs no_failure second_page four_logs
     = (Some \<lparr>lr_data = [(log_entry 4 5 1, False)], lr_count = 3\<rparr>,
        four_logs\<lparr>trace := [SELECT_LOGS, COUNT_LOGS]\<rparr>)"
  by (simp add: getLogs_def query_def visible_def select_logs_def count_logs_def
      left_join_comments_def order_desc_def log_key_def log_matches_def truthy_num_def
      or_one_def second_page_def four_logs_def fresh_def empty_db_def no_failure_def
      log_entry_def empty_snapshot_def Let_def less_eq_prod_def)

theorem getLogs_page_witness:
  "fst (getLogs no_failure second_page four_logs)
     = Some \<lparr>lr_data = [(log_entry 4 5 1, False)], lr_count = 3\<rparr>
   \<and> lp_limit second_page = 2 \<and> lp_offset second_page = (2 - 1) * 2
   \<and> length (filter (log_matches (truthy_num (lp_comment second_page)) (or_one (lp_id second_page)))
        (logs (visible four_logs))) = 3
   \<and> length [(log_entry 4 5 1, False)] = min 2 (3 - (2 - 1) * 2)"
proof -
  have d1: "distinct (map c_id (comments (visible four_logs)))"
    by (simp add: four_logs_def fresh_def empty_db_def visible_def)
  have d2: "distinct (map l_id (logs (visible four_logs)))"
    by (simp add: four_logs_def fresh_def empty_db_def visible_def log_entry_def)
  have n: "3 = length (filter (log_matches (truthy_num (lp_comment second_page))
                (or_one (lp_id second_page))) (logs (visible four_logs)))"
    by (simp add: four_logs_def fresh_def empty_db_def visible_def log_entry_def
        log_matches_def truthy_num_def or_one_def second_page_def empty_snapshot_def)
  have l: "lp_limit second_page = 2" and off: "lp_offset second_page = (2 - 1) * 2"
    by (simp_all add: second_page_def)
  from getLogs_page [of no_failure four_logs, OF _ _ d1 d2 _ l off n]
  obtain page c' where run: "getLogs no_failure second_page four_logs = (Some page, c')"
    and len: "length (lr_data page) = min 2 (3 - (2 - 1) * 2)"
    by (auto simp: no_failure_def)
  from run second_page_run
  have "page = \<lparr>lr_data = [(log_entry 4 5 1, False)], lr_count = 3\<rparr>" by simp
  with len have "length [(log_entry 4 5 1, False)] = min 2 (3 - (2 - 1) * 2)" by simp
  with second_page_run l off n show ?thesis by simp
qed

section \<open>Properties of the binding of comments\<close>















section \<open>Activation and statistics at concrete inputs\<close>

text \<open>
  C8. The claim: the operation itself refuses, by comparing identities, to deactivate the
  account of the administrator who asks. \<open>changeActivationStatus\<close> tests only that the
  target id is truthy and that the actor's tier is 1; the comparison of identities is in
  the template of the user page alone. An administrator with id 1 who asks to deactivate
  user 1 gets the row back, and the account is deactivated.
\<close>

theorem changeActivationStatus_self_deactivation:
  "cu_id admin = 1
   \<and> fst (changeActivationStatus no_failure admin 1 False one_admin) = Some 1
   \<and> users (committed (snd (changeActivationStatus no_failure admin 1 False one_admin)))
       = [\<lparr>u_id = 1, u_privs = 1, u_activated = False\<rparr>]"
  by (simp add: changeActivationStatus_def admin_def one_admin_def fresh_def empty_db_def
      no_failure_def query_def modify_def visible_def Let_def)



lemma first_comment_saved:
  "snd (setComment first_client no_failure editor (intro_params\<lparr>p_published := Some True\<rparr>)
          intro_held fresh)
     = fresh\<lparr>committed := empty_db\<lparr>comments :=
                [row_of_params 1 1 intro_held (intro_params\<lparr>p_published := Some True\<rparr>)],
              logs := [\<lparr>l_id = 1, l_created = 0, l_user_id = 7, l_table_name = ''comments'',
                        l_record_id = 1, l_data0 = empty_snapshot,
                        l_data1 = cleanCommentObject (intro_params\<lparr>p_published := Some True\<rparr>)\<rparr>]\<rparr>,
             seq_comments := 1, seq_logs := 1,
             trace := [BEGIN, INSERT_COMMENT, INSERT_LOG, COMMIT]\<rparr>"
  by (simp add: setComment_defs fresh_def empty_db_def no_failure_def first_client_def
      editor_def intro_params_def has_id_def Let_def)

lemma two_comments_state:
  "committed two_comments
     = empty_db\<lparr>comments :=
           [row_of_params 1 1 intro_held (intro_params\<lparr>p_published := Some True\<rparr>),
            row_of_params 2 1 (intro_held\<lparr>h_title := ''Two''\<rparr>)
              (intro_params\<lparr>p_title := Some ''Two''\<rparr>)],
         logs := [\<lparr>l_id = 1, l_created = 0, l_user_id = 7, l_table_name = ''comments'',
                   l_record_id = 1, l_data0 = empty_snapshot,
                   l_data1 = cleanCommentObject (intro_params\<lparr>p_published := Some True\<rparr>)\<rparr>,
                  \<lparr>l_id = 2, l_created = 0, l_user_id = 7, l_table_name = ''comments'',
                   l_record_id = 2, l_data0 = empty_snapshot,
                   l_data1 = cleanCommentObject (intro_params\<lparr>p_title := Some ''Two''\<rparr>)\<rparr>]\<rparr>
   \<and> pending two_comments = None"
  unfolding two_comments_def first_comment_saved
  by (simp add: setComment_defs fresh_def empty_db_def no_failure_def first_client_def
      editor_def intro_params_def has_id_def Let_def)

text \<open>
  C9. The claim: total = ready + draft in every reachable state. A comment saved without
  the field \<^verbatim>\<open>published\<close> is stored with NULL there; it is counted in \<open>total\<close> and
  by neither filter. After the two calls above the statistics of text 1 are total 2,
  ready 1, draft 0.
\<close>

theorem getStats_null_published_uncounted:
  "map c_published (comments (committed two_comments)) = [Some True, None]
   \<and> fst (getStats no_failure (Num 1) two_comments) = Some \<lparr>total = 2, ready = 1, draft = 0\<rparr>"
  by (simp add: two_comments_state getStats_def truthy_num_def query_def visible_def completion_counts_def
      etc_divides_by_zero_def no_failure_def row_of_params_def intro_params_def empty_db_def
      Let_def)

end
